theory Spec2Isabelle
  imports Main "HOL-Library.Word"
begin

unbundle bit_operations_syntax

section \<open>The poll-based TCP server (poll\_tcp\_server.cpp)\<close>

subsection \<open>Descriptors and readiness flags\<close>

text \<open>
  A \<^verbatim>\<open>struct pollfd\<close> has an \<^verbatim>\<open>int fd\<close> and two \<^verbatim>\<open>short\<close> flag fields.
  Descriptors are never used in arithmetic, only compared, so they are mathematical
  integers; the flag fields are 16-bit words and the tests \<^verbatim>\<open>revents & FLAG\<close> are
  bitwise. The flag values are those of the Linux header \<^verbatim>\<open>sys/poll.h\<close>.
\<close>

type_synonym short = "16 word"

definition POLLIN :: short where "POLLIN = 0x001"
definition POLLOUT :: short where "POLLOUT = 0x004"
definition POLLERR :: short where "POLLERR = 0x008"
definition POLLHUP :: short where "POLLHUP = 0x010"
definition POLLNVAL :: short where "POLLNVAL = 0x020"

record pollfd =
  fd :: int
  events :: short
  revents :: short

subsection \<open>Observable effects\<close>

text \<open>
  Everything the server does besides updating its own fields is recorded, in order, in a
  list of events: the handler callbacks it dispatches, the system calls that create or
  release descriptors, and its diagnostics on the console.
\<close>

datatype event =
    Sys_socket
  | Sys_bind int int
  | Sys_listen int
  | Sys_close int
  | Cb_connect int
  | Cb_data int string
  | Cb_disconnect int
  | Ready_for_listen int
  | Nothing_to_poll
  | Invalid_socket_fd
  | Getsockopt_failed
  | Socket_error int
  | Peer_hang_up
  | Accept_failed
  | Ready_to_write int
  | Server_error string

datatype exn = Runtime_error string

text \<open>
  The handler pointer is a \<^verbatim>\<open>shared_ptr<IClientHandler>\<close>: null, or a pointer to an
  object of one of the two concrete handler classes.
\<close>

datatype handler_ref = EchoHandler_ref | BroadCastChatHandler_ref

record TcpServer =
  server_fd :: int
  port :: int
  pHandler :: "handler_ref option"
  fds :: "pollfd list"
  new_clients :: "int list"
  remove_clients :: "int list"

text \<open>
  The two staging sets are \<^verbatim>\<open>std::unordered_set<int>\<close>. They are modelled as lists
  without repetition; the order of the list is the order in which the set is iterated
  (which C++ leaves unspecified, here: insertion order).
\<close>

definition set_insert :: "int \<Rightarrow> int list \<Rightarrow> int list" where
  "set_insert x xs = (if x \<in> set xs then xs else xs @ [x])"

subsection \<open>Construction and setup\<close>

text \<open>The results of the three system calls of \<^verbatim>\<open>setup_socket\<close>.\<close>

record setup_env =
  socket_res :: int
  bind_res :: int
  listen_res :: int

definition setup_socket :: "setup_env \<Rightarrow> TcpServer \<Rightarrow> (exn + TcpServer) \<times> event list" where
  "setup_socket env s =
     (let s1 = s\<lparr>server_fd := socket_res env\<rparr> in
      if server_fd s1 < 0
      then (Inl (Runtime_error ''Socket Creation failed''), [Sys_socket])
      else if bind_res env < 0
      then (Inl (Runtime_error ''Socket binding failed''),
            [Sys_socket, Sys_bind (server_fd s1) (port s1)])
      else if listen_res env < 0
      then (Inl (Runtime_error ''Socket listening failed''),
            [Sys_socket, Sys_bind (server_fd s1) (port s1), Sys_listen (server_fd s1)])
      else (Inr (s1\<lparr>fds := fds s1 @ [\<lparr>fd = server_fd s1, events = POLLIN, revents = 0\<rparr>]\<rparr>),
            [Sys_socket, Sys_bind (server_fd s1) (port s1), Sys_listen (server_fd s1),
             Ready_for_listen (port s1)]))"

definition TcpServer_ctor ::
  "int \<Rightarrow> handler_ref option \<Rightarrow> setup_env \<Rightarrow> (exn + TcpServer) \<times> event list" where
  "TcpServer_ctor prt p_handler env =
     (let s = \<lparr>server_fd = - 1, port = prt, pHandler = p_handler, fds = [],
               new_clients = [], remove_clients = []\<rparr> in
      if p_handler = None
      then (Inl (Runtime_error ''client handle can not be null''), [])
      else setup_socket env s)"

definition TcpServer_dtor :: "TcpServer \<Rightarrow> event list" where
  "TcpServer_dtor s = Sys_close (server_fd s) # map (\<lambda>e. Sys_close (fd e)) (fds s)"

subsection \<open>The dispatch pass\<close>

text \<open>
  What the operating system answers while the entry at one index of the registry is
  visited: the return value of \<^verbatim>\<open>getsockopt\<close> and the \<^verbatim>\<open>SO_ERROR\<close> it stores, the return
  value of \<^verbatim>\<open>accept\<close>, and the return value of \<^verbatim>\<open>recv\<close> with the contents it leaves
  in the 1024-byte buffer.
  Each entry makes at most one of each of these calls.
\<close>

record sysres =
  getsockopt_ret :: int
  so_error :: int
  accept_res :: int
  recv_ret :: int
  recv_buffer :: string

definition accept_new_client :: "int \<Rightarrow> int \<times> event list" where
  "accept_new_client client_fd =
     (if client_fd < 0 then (- 1, [Accept_failed])
      else (client_fd, [Cb_connect client_fd]))"

definition handle_existing_client_read :: "int \<Rightarrow> int \<Rightarrow> string \<Rightarrow> int \<times> event list" where
  "handle_existing_client_read client_fd nb buffer =
     (if nb \<le> 0 then (- 1, [])
      else (0, [Cb_data client_fd (take (nat nb) buffer)]))"

definition handle_existing_client_write :: "int \<Rightarrow> event list" where
  "handle_existing_client_write client_fd = [Ready_to_write client_fd]"

text \<open>The body of the \<^verbatim>\<open>for\<close> loop of \<^verbatim>\<open>run\<close>, for the entry \<open>pfd\<close>.\<close>

definition on_pollnval :: "pollfd \<Rightarrow> event list" where
  "on_pollnval pfd = (if revents pfd AND POLLNVAL \<noteq> 0 then [Invalid_socket_fd] else [])"

definition on_pollerr :: "sysres \<Rightarrow> pollfd \<Rightarrow> event list" where
  "on_pollerr r pfd =
     (if revents pfd AND POLLERR \<noteq> 0
      then (if getsockopt_ret r < 0 then [Getsockopt_failed] else [Socket_error (so_error r)])
      else [])"

definition on_pollhup :: "pollfd \<Rightarrow> event list" where
  "on_pollhup pfd = (if revents pfd AND POLLHUP \<noteq> 0 then [Peer_hang_up] else [])"

definition on_pollin :: "sysres \<Rightarrow> pollfd \<Rightarrow> TcpServer \<Rightarrow> TcpServer \<times> event list" where
  "on_pollin r pfd s =
     (if revents pfd AND POLLIN \<noteq> 0
      then (if fd pfd = server_fd s
            then (case accept_new_client (accept_res r) of (new_fd, t) \<Rightarrow>
                    if new_fd \<ge> 0
                    then (s\<lparr>new_clients := set_insert new_fd (new_clients s)\<rparr>, t)
                    else (s, t))
            else (case handle_existing_client_read (fd pfd) (recv_ret r) (recv_buffer r) of
                    (rc, t) \<Rightarrow>
                    if rc < 0
                    then (s\<lparr>remove_clients := set_insert (fd pfd) (remove_clients s)\<rparr>, t)
                    else (s, t)))
      else (s, []))"

definition on_pollout :: "pollfd \<Rightarrow> event list" where
  "on_pollout pfd =
     (if revents pfd AND POLLOUT \<noteq> 0 then handle_existing_client_write (fd pfd) else [])"

definition scan_entry :: "sysres \<Rightarrow> pollfd \<Rightarrow> TcpServer \<Rightarrow> TcpServer \<times> event list" where
  "scan_entry r pfd s =
     (case on_pollin r pfd s of (s', t) \<Rightarrow>
        (s', on_pollnval pfd @ on_pollerr r pfd @ on_pollhup pfd @ t @ on_pollout pfd))"

text \<open>
  The loop \<^verbatim>\<open>for(size_t i = 0; i < fds.size(); ++i)\<close>: it reads the size and the entry
  from the registry of the current state at every round.
\<close>

function scan :: "nat \<Rightarrow> (nat \<Rightarrow> sysres) \<Rightarrow> TcpServer \<Rightarrow> TcpServer \<times> event list" where
  "scan i io s =
     (if i < length (fds s)
      then (case scan_entry (io i) (fds s ! i) s of (s', t) \<Rightarrow>
              (case scan (Suc i) io s' of (s'', t') \<Rightarrow> (s'', t @ t')))
      else (s, []))"
  by pat_completeness auto
termination
proof (relation "measure (\<lambda>(i, io, s). length (fds s) - i)")
  show "wf (measure (\<lambda>(i, io, s). length (fds s) - i))" by simp
next
  fix i :: nat and io :: "nat \<Rightarrow> sysres" and s x :: TcpServer and t :: "event list"
  assume lt: "i < length (fds s)" and e: "(x, t) = scan_entry (io i) (fds s ! i) s"
  have "fds x = fds s"
    using e by (auto simp: scan_entry_def on_pollin_def split: prod.splits if_splits)
  then show "((Suc i, io, x), (i, io, s)) \<in> measure (\<lambda>(i, io, s). length (fds s) - i)"
    using lt by simp
qed

declare scan.simps [simp del]

subsection \<open>Commit: removals, then additions\<close>

text \<open>
  \<^verbatim>\<open>close_clients\<close> walks the registry with an iterator; an entry whose descriptor is in
  the removal set is closed (unless poll reported it invalid), reported to the handler and
  erased, and the iterator stays on the element that followed it.
\<close>

fun close_clients_loop :: "int list \<Rightarrow> pollfd list \<Rightarrow> pollfd list \<times> event list" where
  "close_clients_loop rm [] = ([], [])"
| "close_clients_loop rm (p # ps) =
     (case close_clients_loop rm ps of (ps', t) \<Rightarrow>
        if fd p \<in> set rm
        then (ps', (if revents p AND POLLNVAL = 0 then [Sys_close (fd p)] else [])
                    @ [Cb_disconnect (fd p)] @ t)
        else (p # ps', t))"

definition close_clients :: "TcpServer \<Rightarrow> TcpServer \<times> event list" where
  "close_clients s =
     (case close_clients_loop (remove_clients s) (fds s) of (ps, t) \<Rightarrow> (s\<lparr>fds := ps\<rparr>, t))"

definition push_back :: "pollfd list \<Rightarrow> int \<Rightarrow> pollfd list" where
  "push_back v a = v @ [\<lparr>fd = a, events = POLLIN, revents = 0\<rparr>]"

definition add_new_clients :: "TcpServer \<Rightarrow> TcpServer" where
  "add_new_clients s = s\<lparr>fds := foldl push_back (fds s) (new_clients s)\<rparr>"

definition commit :: "TcpServer \<Rightarrow> TcpServer \<times> event list" where
  "commit s = (case close_clients s of (s', t) \<Rightarrow> (add_new_clients s', t))"

subsection \<open>The readiness loop\<close>

text \<open>
  One round of \<^verbatim>\<open>poll\<close>: its return value, the \<^verbatim>\<open>revents\<close> it writes (one per registry
  entry, in order; where the list is too short the remaining entries keep what they had),
  and the answers of the system calls made while each index is visited.
\<close>

record poll_env =
  poll_ret :: int
  poll_revents :: "short list"
  sys :: "nat \<Rightarrow> sysres"

fun poll :: "short list \<Rightarrow> pollfd list \<Rightarrow> pollfd list" where
  "poll (r # rs) (p # ps) = p\<lparr>revents := r\<rparr> # poll rs ps"
| "poll rs ps = ps"

definition dispatch :: "poll_env \<Rightarrow> TcpServer \<Rightarrow> TcpServer \<times> event list" where
  "dispatch e s =
     scan 0 (sys e)
       (s\<lparr>fds := poll (poll_revents e) (fds s), remove_clients := [], new_clients := []\<rparr>)"

definition iteration :: "poll_env \<Rightarrow> TcpServer \<Rightarrow> TcpServer \<times> event list" where
  "iteration e s =
     (case dispatch e s of (s', t) \<Rightarrow>
        (case commit s' of (s'', t') \<Rightarrow> (s'', t @ t')))"

text \<open>
  \<^verbatim>\<open>run\<close> loops until \<^verbatim>\<open>poll\<close> fails. The rounds of \<^verbatim>\<open>poll\<close> are given as a finite
  script; when the script is used up the server is blocked in \<^verbatim>\<open>poll\<close> (timeout -1) and
  \<^verbatim>\<open>run\<close> has not returned: the result is \<open>None\<close>.
\<close>

fun run :: "TcpServer \<Rightarrow> poll_env list \<Rightarrow> (TcpServer \<times> event list) option" where
  "run s [] = None"
| "run s (e # es) =
     (if poll_ret e < 0 then Some (s, [Nothing_to_poll, Sys_close (server_fd s)])
      else (case iteration e s of (s', t) \<Rightarrow>
              (case run s' es of None \<Rightarrow> None
               | Some (s'', t') \<Rightarrow> Some (s'', t @ t'))))"

text \<open>\<^verbatim>\<open>EXIT_FAILURE\<close> is the value of \<^verbatim>\<open>stdlib.h\<close> (1 with glibc).\<close>

definition EXIT_FAILURE :: int where "EXIT_FAILURE = 1"

definition what :: "exn \<Rightarrow> string" where
  "what e = (case e of Runtime_error m \<Rightarrow> m)"

text \<open>
  \<^verbatim>\<open>main\<close>, with the broadcast chat handler: the exit status and what happened, or \<open>None\<close>
  while \<^verbatim>\<open>run\<close> has not returned. Leaving the \<^verbatim>\<open>try\<close> block destroys the server.
\<close>

definition main :: "setup_env \<Rightarrow> poll_env list \<Rightarrow> (int \<times> event list) option" where
  "main env script =
     (case TcpServer_ctor 9000 (Some BroadCastChatHandler_ref) env of
        (Inl e, t) \<Rightarrow> Some (EXIT_FAILURE, t @ [Server_error (what e)])
      | (Inr server, t) \<Rightarrow>
          (case run server script of None \<Rightarrow> None
           | Some (server', t') \<Rightarrow> Some (0, t @ t' @ TcpServer_dtor server')))"

section \<open>The broadcast chat handler\<close>

text \<open>
  What a handler callback does to the outside: bytes written to a descriptor with
  \<^verbatim>\<open>send\<close> (whose result the handler ignores), and lines on the console.
\<close>

datatype action = Send int string | Cout string

text \<open>
  The membership set is an \<^verbatim>\<open>unordered_set<int>\<close> (a list without repetition, in
  iteration order), the names an \<^verbatim>\<open>unordered_map<int, string>\<close>. The mutex is taken
  and released inside every callback and has no effect in the single-threaded server.
\<close>

record BroadCastChatHandler =
  clients :: "int list"
  nick_names :: "int \<rightharpoonup> string"

definition CR :: char where "CR = CHR 0x0D"
definition LF :: char where "LF = CHR 0x0A"

text \<open>\<^verbatim>\<open>msg.erase(std::remove(msg.begin(), msg.end(), c), msg.end())\<close>\<close>

definition erase_remove :: "char \<Rightarrow> string \<Rightarrow> string" where
  "erase_remove c msg = filter (\<lambda>x. x \<noteq> c) msg"

text \<open>\<^verbatim>\<open>std::to_string\<close> of an \<^verbatim>\<open>int\<close>: decimal digits, with a minus sign.\<close>

fun digits :: "nat \<Rightarrow> string" where
  "digits n =
     (if n < 10 then [char_of (48 + n)]
      else digits (n div 10) @ [char_of (48 + n mod 10)])"

declare digits.simps [simp del]

definition to_string :: "int \<Rightarrow> string" where
  "to_string i = (if i < 0 then CHR ''-'' # digits (nat (- i)) else digits (nat i))"

definition broadcast :: "BroadCastChatHandler \<Rightarrow> int \<Rightarrow> string \<Rightarrow> action list" where
  "broadcast h sender_fd msg =
     concat (map (\<lambda>c. if c \<noteq> sender_fd then [Send c msg] else []) (clients h))"

definition on_client_connect ::
  "BroadCastChatHandler \<Rightarrow> int \<Rightarrow> BroadCastChatHandler \<times> action list" where
  "on_client_connect h client_fd =
     (h\<lparr>clients := set_insert client_fd (clients h)\<rparr>,
      [Send client_fd '' Enter your nickname: ''])"

text \<open>
  The argument \<open>bytes\<close> is the span \<^verbatim>\<open>(data, len)\<close> the server passes, from which the
  callback builds \<^verbatim>\<open>std::string msg(data, len)\<close>.
\<close>

definition on_client_data ::
  "BroadCastChatHandler \<Rightarrow> int \<Rightarrow> string \<Rightarrow> BroadCastChatHandler \<times> action list" where
  "on_client_data h client_fd bytes =
     (let msg = erase_remove LF (erase_remove CR bytes) in
      case nick_names h client_fd of
        None \<Rightarrow>
          (let h' = h\<lparr>nick_names := (nick_names h)(client_fd \<mapsto> msg)\<rparr>;
               join_msg = msg @ '' joined the chat'' @ [LF]
           in (h', broadcast h' client_fd join_msg @ [Cout join_msg]))
      | Some name \<Rightarrow>
          (let full_msg = name @ '': '' @ msg @ [LF]
           in (h, broadcast h client_fd full_msg @ [Cout full_msg])))"

definition on_client_disconnect ::
  "BroadCastChatHandler \<Rightarrow> int \<Rightarrow> BroadCastChatHandler \<times> action list" where
  "on_client_disconnect h client_fd =
     (let name = (case nick_names h client_fd of
                    Some n \<Rightarrow> n
                  | None \<Rightarrow> ''Client '' @ to_string client_fd);
          h' = h\<lparr>clients := removeAll client_fd (clients h),
                 nick_names := (nick_names h)(client_fd := None)\<rparr>;
          msg = name @ '' left the chat'' @ [LF]
      in (h', broadcast h' client_fd msg @ [Cout msg]))"

text \<open>
  For comparison with the code: stripping line terminators at the end of the text only,
  as the specification words it.
\<close>

definition strip_trailing_terminators :: "string \<Rightarrow> string" where
  "strip_trailing_terminators bytes = rev (dropWhile (\<lambda>c. c = CR \<or> c = LF) (rev bytes))"

text \<open>The descriptors a list of actions writes to, one per \<^verbatim>\<open>send\<close>, in order.\<close>

fun recipients :: "action list \<Rightarrow> int list" where
  "recipients [] = []"
| "recipients (Send c m # os) = c # recipients os"
| "recipients (Cout m # os) = recipients os"

text \<open>The events that are a dispatch of the data callback.\<close>

fun is_cb_data :: "event \<Rightarrow> bool" where
  "is_cb_data (Cb_data d x) = True"
| "is_cb_data e = False"

section \<open>Properties of the server\<close>

subsection \<open>The scan and the commit, step by step\<close>

lemma on_pollin_cases:
  "on_pollin r pfd s = (s', t) \<Longrightarrow>
     (s' = s \<and> t = [] \<and> revents pfd AND POLLIN = 0)
   \<or> (revents pfd AND POLLIN \<noteq> 0 \<and> fd pfd = server_fd s \<and> accept_res r < 0 \<and> s' = s \<and> t = [Accept_failed])
   \<or> (revents pfd AND POLLIN \<noteq> 0 \<and> fd pfd = server_fd s \<and> 0 \<le> accept_res r
        \<and> s' = s\<lparr>new_clients := set_insert (accept_res r) (new_clients s)\<rparr>
        \<and> t = [Cb_connect (accept_res r)])
   \<or> (revents pfd AND POLLIN \<noteq> 0 \<and> fd pfd \<noteq> server_fd s \<and> recv_ret r \<le> 0
        \<and> s' = s\<lparr>remove_clients := set_insert (fd pfd) (remove_clients s)\<rparr> \<and> t = [])
   \<or> (revents pfd AND POLLIN \<noteq> 0 \<and> fd pfd \<noteq> server_fd s \<and> 0 < recv_ret r \<and> s' = s
        \<and> t = [Cb_data (fd pfd) (take (nat (recv_ret r)) (recv_buffer r))])"
  unfolding on_pollin_def accept_new_client_def handle_existing_client_read_def
  by (auto split: if_splits)


lemma front_trace:
  "e \<in> set (on_pollnval pfd @ on_pollerr r pfd @ on_pollhup pfd) \<Longrightarrow>
     e = Invalid_socket_fd \<or> e = Getsockopt_failed \<or> e = Peer_hang_up \<or> (\<exists>n. e = Socket_error n)"
  by (auto simp: on_pollnval_def on_pollerr_def on_pollhup_def split: if_splits)

lemma back_trace: "e \<in> set (on_pollout pfd) \<Longrightarrow> e = Ready_to_write (fd pfd)"
  by (simp add: on_pollout_def handle_existing_client_write_def split: if_splits)

lemma scan_entry_eq:
  "scan_entry r pfd s = (s', t) \<Longrightarrow>
     \<exists>t0. on_pollin r pfd s = (s', t0) \<and>
          t = (on_pollnval pfd @ on_pollerr r pfd @ on_pollhup pfd) @ t0 @ on_pollout pfd"
  by (cases "on_pollin r pfd s") (auto simp: scan_entry_def)

lemma on_pollin_frame:
  "on_pollin r pfd s = (s', t) \<Longrightarrow>
     fds s' = fds s \<and> server_fd s' = server_fd s \<and> pHandler s' = pHandler s \<and> port s' = port s"
  using on_pollin_cases [of r pfd s s' t] by auto

lemma on_pollin_trace:
  "on_pollin r pfd s = (s', t) \<Longrightarrow>
     Cb_disconnect d \<notin> set t \<and> Sys_close d \<notin> set t \<and> (Cb_data d x \<in> set t \<longrightarrow> d = fd pfd)"
  using on_pollin_cases [of r pfd s s' t] by auto

lemma set_set_insert [simp]: "set (set_insert x xs) = insert x (set xs)"
  by (auto simp: set_insert_def)

lemma on_pollin_staged:
  "on_pollin r pfd s = (s', t) \<Longrightarrow>
     set (remove_clients s') \<subseteq> insert (fd pfd) (set (remove_clients s)) \<and>
     set (remove_clients s) \<subseteq> set (remove_clients s') \<and>
     set (new_clients s) \<subseteq> set (new_clients s') \<and>
     (\<forall>a. a \<in> set (new_clients s') \<longrightarrow> a \<in> set (new_clients s) \<or> Cb_connect a \<in> set t)"
  using on_pollin_cases [of r pfd s s' t] by auto

lemma scan_entry_frame:
  "scan_entry r pfd s = (s', t) \<Longrightarrow>
     fds s' = fds s \<and> server_fd s' = server_fd s \<and> pHandler s' = pHandler s \<and> port s' = port s"
  using scan_entry_eq [of r pfd s s' t] on_pollin_frame [of r pfd s s'] by blast

lemma scan_entry_trace:
  "scan_entry r pfd s = (s', t) \<Longrightarrow>
     Cb_disconnect d \<notin> set t \<and> Sys_close d \<notin> set t \<and>
     (Cb_data d x \<in> set t \<longrightarrow> d = fd pfd)"
proof -
  assume a: "scan_entry r pfd s = (s', t)"
  then obtain t0 where p: "on_pollin r pfd s = (s', t0)"
    and t: "t = (on_pollnval pfd @ on_pollerr r pfd @ on_pollhup pfd) @ t0 @ on_pollout pfd"
    using scan_entry_eq by blast
  have f: "Cb_disconnect d \<notin> set (on_pollnval pfd @ on_pollerr r pfd @ on_pollhup pfd)"
      "Sys_close d \<notin> set (on_pollnval pfd @ on_pollerr r pfd @ on_pollhup pfd)"
      "Cb_data d x \<notin> set (on_pollnval pfd @ on_pollerr r pfd @ on_pollhup pfd)"
    using front_trace [of _ pfd r] by auto
  have b: "Cb_disconnect d \<notin> set (on_pollout pfd)" "Sys_close d \<notin> set (on_pollout pfd)"
      "Cb_data d x \<notin> set (on_pollout pfd)"
    using back_trace [of _ pfd] by auto
  show ?thesis using on_pollin_trace [OF p, of d x] f b unfolding t set_append by blast
qed

lemma scan_entry_staged:
  "scan_entry r pfd s = (s', t) \<Longrightarrow>
     set (remove_clients s') \<subseteq> insert (fd pfd) (set (remove_clients s)) \<and>
     set (remove_clients s) \<subseteq> set (remove_clients s') \<and>
     set (new_clients s) \<subseteq> set (new_clients s') \<and>
     (\<forall>a. a \<in> set (new_clients s') \<longrightarrow> a \<in> set (new_clients s) \<or> Cb_connect a \<in> set t)"
proof -
  assume a: "scan_entry r pfd s = (s', t)"
  then obtain t0 where p: "on_pollin r pfd s = (s', t0)"
    and t: "t = (on_pollnval pfd @ on_pollerr r pfd @ on_pollhup pfd) @ t0 @ on_pollout pfd"
    using scan_entry_eq by blast
  have "set t0 \<subseteq> set t" unfolding t by auto
  then show ?thesis using on_pollin_staged [OF p] by blast
qed

lemma scan_step:
  "i < length (fds s) \<Longrightarrow>
     scan i io s =
       (case scan_entry (io i) (fds s ! i) s of (s', t) \<Rightarrow>
          (case scan (Suc i) io s' of (s'', t') \<Rightarrow> (s'', t @ t')))"
  by (subst scan.simps) simp

lemma scan_done: "\<not> i < length (fds s) \<Longrightarrow> scan i io s = (s, [])"
  by (subst scan.simps) simp

lemma scan_frame:
  "scan i io s = (s', t) \<Longrightarrow>
     fds s' = fds s \<and> server_fd s' = server_fd s \<and> pHandler s' = pHandler s \<and> port s' = port s"
proof (induction i io s arbitrary: s' t rule: scan.induct)
  case (1 i io s)
  show ?case
  proof (cases "i < length (fds s)")
    case False
    with "1.prems" show ?thesis by (simp add: scan_done)
  next
    case True
    obtain s1 t1 where e: "scan_entry (io i) (fds s ! i) s = (s1, t1)" by fastforce
    obtain s2 t2 where r: "scan (Suc i) io s1 = (s2, t2)" by fastforce
    from "1.prems" True e r have "s' = s2" by (simp add: scan_step)
    moreover note "1.IH" [OF True e [symmetric] r] scan_entry_frame [OF e]
    ultimately show ?thesis by simp
  qed
qed

lemma scan_trace:
  "scan i io s = (s', t) \<Longrightarrow>
     Cb_disconnect d \<notin> set t \<and> Sys_close d \<notin> set t \<and>
     (Cb_data d x \<in> set t \<longrightarrow> d \<in> fd ` set (fds s))"
proof (induction i io s arbitrary: s' t rule: scan.induct)
  case (1 i io s)
  show ?case
  proof (cases "i < length (fds s)")
    case False
    with "1.prems" show ?thesis by (simp add: scan_done)
  next
    case True
    obtain s1 t1 where e: "scan_entry (io i) (fds s ! i) s = (s1, t1)" by fastforce
    obtain s2 t2 where r: "scan (Suc i) io s1 = (s2, t2)" by fastforce
    from "1.prems" True e r have t: "t = t1 @ t2" by (simp add: scan_step)
    have f: "fds s1 = fds s" using scan_entry_frame [OF e] by simp
    have m: "fd (fds s ! i) \<in> fd ` set (fds s)" using True by simp
    show ?thesis
      using "1.IH" [OF True e [symmetric] r] scan_entry_trace [OF e, of d x] t f m by auto
  qed
qed

lemma scan_staged:
  "scan i io s = (s', t) \<Longrightarrow>
     set (remove_clients s') \<subseteq> fd ` set (fds s) \<union> set (remove_clients s) \<and>
     (\<forall>a. a \<in> set (new_clients s') \<longrightarrow> a \<in> set (new_clients s) \<or> Cb_connect a \<in> set t)"
proof (induction i io s arbitrary: s' t rule: scan.induct)
  case (1 i io s)
  show ?case
  proof (cases "i < length (fds s)")
    case False
    with "1.prems" show ?thesis by (simp add: scan_done)
  next
    case True
    obtain s1 t1 where e: "scan_entry (io i) (fds s ! i) s = (s1, t1)" by fastforce
    obtain s2 t2 where r: "scan (Suc i) io s1 = (s2, t2)" by fastforce
    from "1.prems" True e r have t: "t = t1 @ t2" and s': "s' = s2" by (simp_all add: scan_step)
    have f: "fds s1 = fds s" using scan_entry_frame [OF e] by simp
    have m: "fd (fds s ! i) \<in> fd ` set (fds s)" using True by simp
    show ?thesis
      using "1.IH" [OF True e [symmetric] r] scan_entry_staged [OF e] t s' f m by auto
  qed
qed

lemma close_clients_loop_fds:
  "fst (close_clients_loop rm ps) = filter (\<lambda>p. fd p \<notin> set rm) ps"
  by (induction ps) (auto split: prod.splits)

lemma close_clients_loop_trace:
  "Cb_data d x \<notin> set (snd (close_clients_loop rm ps)) \<and>
   Cb_connect d \<notin> set (snd (close_clients_loop rm ps)) \<and>
   (Cb_disconnect d \<in> set (snd (close_clients_loop rm ps)) \<longrightarrow> d \<in> set rm \<and> d \<in> fd ` set ps)"
  by (induction ps) (auto split: prod.splits)


lemma foldl_push_back:
  "foldl push_back v as = v @ map (\<lambda>a. \<lparr>fd = a, events = POLLIN, revents = 0\<rparr>) as"
  by (induction as arbitrary: v) (simp_all add: push_back_def)

lemma map_fd_poll: "map fd (poll rs ps) = map fd ps"
  by (induction rs ps rule: poll.induct) simp_all

lemma commit_result:
  "fds (fst (commit s)) =
     filter (\<lambda>p. fd p \<notin> set (remove_clients s)) (fds s)
       @ map (\<lambda>a. \<lparr>fd = a, events = POLLIN, revents = 0\<rparr>) (new_clients s)
   \<and> server_fd (fst (commit s)) = server_fd s
   \<and> new_clients (fst (commit s)) = new_clients s
   \<and> remove_clients (fst (commit s)) = remove_clients s"
proof -
  obtain ps t where c: "close_clients_loop (remove_clients s) (fds s) = (ps, t)" by fastforce
  have ps: "ps = filter (\<lambda>p. fd p \<notin> set (remove_clients s)) (fds s)"
    using close_clients_loop_fds [of "remove_clients s" "fds s"] c by simp
  show ?thesis
    by (simp add: commit_def close_clients_def add_new_clients_def c ps foldl_push_back)
qed

subsection \<open>Commit\<close>

text \<open>
  Claim C8. Commit is a frame-preserving update of the registry: the entries whose
  descriptor is not in the removal set stay as they are (descriptor, interest and
  observed flags) and in their order, the entries in the removal set are erased, and one
  entry with read interest per staged addition is appended at the end, in the order in
  which the addition set is iterated. The other fields of the server (listening
  descriptor, port, handler pointer and the two staging sets) are left as they are.
\<close>

theorem commit_frame:
  "fds (fst (commit s)) =
     filter (\<lambda>p. fd p \<notin> set (remove_clients s)) (fds s)
       @ map (\<lambda>a. \<lparr>fd = a, events = POLLIN, revents = 0\<rparr>) (new_clients s)
   \<and> server_fd (fst (commit s)) = server_fd s
   \<and> new_clients (fst (commit s)) = new_clients s
   \<and> remove_clients (fst (commit s)) = remove_clients s
   \<and> port (fst (commit s)) = port s
   \<and> pHandler (fst (commit s)) = pHandler s"
  using commit_result [of s]
  by (simp add: commit_def close_clients_def add_new_clients_def split: prod.splits)

lemma no_data_front:
  "filter is_cb_data (on_pollnval pfd @ on_pollerr r pfd @ on_pollhup pfd) = []"
  unfolding filter_empty_conv using front_trace [of _ pfd r] by fastforce

lemma no_data_back: "filter is_cb_data (on_pollout pfd) = []"
  unfolding filter_empty_conv using back_trace [of _ pfd] by fastforce

subsection \<open>Reading from a client\<close>

text \<open>
  Claim C4. When the entry of a descriptor other than the listening one is visited with
  the readable flag set: if \<^verbatim>\<open>recv\<close> returns zero or a negative value, the descriptor
  is put into the removal set and no data callback is dispatched for the entry; if
  \<^verbatim>\<open>recv\<close> returns \<open>n > 0\<close>, the data callback is dispatched exactly once for the
  entry, with the first \<open>n\<close> bytes of the buffer (which are \<open>n\<close> bytes, as \<^verbatim>\<open>recv\<close>
  never returns more than the size of the buffer), and the removal set is left as it was.
\<close>

theorem readable_client_dispatch:
  assumes "revents pfd AND POLLIN \<noteq> 0" and "fd pfd \<noteq> server_fd s"
    and "scan_entry r pfd s = (s', t)"
  shows "(recv_ret r \<le> 0 \<longrightarrow>
            handle_existing_client_read (fd pfd) (recv_ret r) (recv_buffer r) = (- 1, [])
          \<and> remove_clients s' = set_insert (fd pfd) (remove_clients s)
          \<and> fd pfd \<in> set (remove_clients s')
          \<and> filter is_cb_data t = [])
       \<and> (0 < recv_ret r \<longrightarrow>
            handle_existing_client_read (fd pfd) (recv_ret r) (recv_buffer r)
              = (0, [Cb_data (fd pfd) (take (nat (recv_ret r)) (recv_buffer r))])
          \<and> filter is_cb_data t = [Cb_data (fd pfd) (take (nat (recv_ret r)) (recv_buffer r))]
          \<and> remove_clients s' = remove_clients s
          \<and> (nat (recv_ret r) \<le> length (recv_buffer r) \<longrightarrow>
               length (take (nat (recv_ret r)) (recv_buffer r)) = nat (recv_ret r)))"
proof -
  obtain t0 where p: "on_pollin r pfd s = (s', t0)"
    and t: "t = (on_pollnval pfd @ on_pollerr r pfd @ on_pollhup pfd) @ t0 @ on_pollout pfd"
    using scan_entry_eq [OF assms(3)] by blast
  have f: "filter is_cb_data t = filter is_cb_data t0"
    using no_data_front [of pfd r] no_data_back [of pfd] by (simp add: t)
  show ?thesis
    using on_pollin_cases [OF p] assms(1,2) f
    by (auto simp: handle_existing_client_read_def)
qed


theorem readable_client_dispatch_witness:
  "let pfd = \<lparr>fd = 5, events = POLLIN, revents = POLLIN\<rparr>;
       s = \<lparr>server_fd = 3, port = 9000, pHandler = Some EchoHandler_ref,
            fds = [\<lparr>fd = 3, events = POLLIN, revents = 0\<rparr>, pfd],
            new_clients = [], remove_clients = []\<rparr>;
       eof = \<lparr>getsockopt_ret = 0, so_error = 0, accept_res = - 1,
              recv_ret = 0, recv_buffer = ''stale''\<rparr>;
       two = \<lparr>getsockopt_ret = 0, so_error = 0, accept_res = - 1,
              recv_ret = 2, recv_buffer = ''hi!!''\<rparr>
   in revents pfd AND POLLIN \<noteq> 0 \<and> fd pfd \<noteq> server_fd s
      \<and> recv_ret eof \<le> 0 \<and> 0 < recv_ret two \<and> nat (recv_ret two) \<le> length (recv_buffer two)
      \<and> remove_clients (fst (scan_entry eof pfd s)) = [5]
      \<and> filter is_cb_data (snd (scan_entry eof pfd s)) = []
      \<and> filter is_cb_data (snd (scan_entry two pfd s)) = [Cb_data 5 ''hi'']
      \<and> remove_clients (fst (scan_entry two pfd s)) = []"
proof -
  let ?pfd = "\<lparr>fd = 5, events = POLLIN, revents = POLLIN\<rparr>"
  let ?s = "\<lparr>server_fd = 3, port = 9000, pHandler = Some EchoHandler_ref,
            fds = [\<lparr>fd = 3, events = POLLIN, revents = 0\<rparr>, ?pfd],
            new_clients = [], remove_clients = []\<rparr>"
  let ?eof = "\<lparr>getsockopt_ret = 0, so_error = 0, accept_res = - 1,
              recv_ret = 0, recv_buffer = ''stale''\<rparr>"
  let ?two = "\<lparr>getsockopt_ret = 0, so_error = 0, accept_res = - 1,
              recv_ret = 2, recv_buffer = ''hi!!''\<rparr>"
  have a: "revents ?pfd AND POLLIN \<noteq> 0" by (simp add: POLLIN_def)
  have b: "fd ?pfd \<noteq> server_fd ?s" by simp
  note w0 = readable_client_dispatch [OF a b surjective_pairing, of ?eof]
  note w2 = readable_client_dispatch [OF a b surjective_pairing, of ?two]
  show ?thesis using a b w0 w2 by (simp add: Let_def set_insert_def)
qed

subsection \<open>One pass: dispatch, then commit\<close>

lemma commit_trace: "snd (commit s) = snd (close_clients_loop (remove_clients s) (fds s))"
  by (simp add: commit_def close_clients_def split: prod.splits)

lemma close_clients_loop_close:
  "Sys_close d \<in> set (snd (close_clients_loop rm ps)) \<Longrightarrow> d \<in> set rm \<and> d \<in> fd ` set ps"
  by (induction ps) (auto split: prod.splits if_splits)

lemma dispatch_facts:
  assumes "dispatch e s = (s1, t1)"
  shows "fds s1 = poll (poll_revents e) (fds s)"
    and "server_fd s1 = server_fd s" and "pHandler s1 = pHandler s"
    and "Cb_disconnect d \<notin> set t1" and "Sys_close d \<notin> set t1"
    and "Cb_data d x \<in> set t1 \<Longrightarrow> d \<in> fd ` set (fds s)"
    and "set (remove_clients s1) \<subseteq> fd ` set (fds s)"
    and "a \<in> set (new_clients s1) \<Longrightarrow> Cb_connect a \<in> set t1"
proof -
  let ?s0 = "s\<lparr>fds := poll (poll_revents e) (fds s), remove_clients := [], new_clients := []\<rparr>"
  have sc: "scan 0 (sys e) ?s0 = (s1, t1)" using assms by (simp add: dispatch_def)
  have im: "fd ` set (fds ?s0) = fd ` set (fds s)"
    using arg_cong [OF map_fd_poll [of "poll_revents e" "fds s"], of set] by simp
  show "fds s1 = poll (poll_revents e) (fds s)" "server_fd s1 = server_fd s"
    "pHandler s1 = pHandler s"
    using scan_frame [OF sc] by simp_all
  show "Cb_disconnect d \<notin> set t1" "Sys_close d \<notin> set t1"
    using scan_trace [OF sc] by simp_all
  show "Cb_data d x \<in> set t1 \<Longrightarrow> d \<in> fd ` set (fds s)"
    using scan_trace [OF sc, of d x] im by simp
  show "set (remove_clients s1) \<subseteq> fd ` set (fds s)"
    using scan_staged [OF sc] im by simp
  show "a \<in> set (new_clients s1) \<Longrightarrow> Cb_connect a \<in> set t1"
    using scan_staged [OF sc] by simp
qed


lemma scan_entry_data:
  assumes "revents pfd AND POLLIN \<noteq> 0" and "fd pfd \<noteq> server_fd s" and "0 < recv_ret r"
    and "scan_entry r pfd s = (s', t)"
  shows "Cb_data (fd pfd) (take (nat (recv_ret r)) (recv_buffer r)) \<in> set t"
proof -
  obtain t0 where p: "on_pollin r pfd s = (s', t0)"
    and t: "t = (on_pollnval pfd @ on_pollerr r pfd @ on_pollhup pfd) @ t0 @ on_pollout pfd"
    using scan_entry_eq [OF assms(4)] by blast
  have "Cb_data (fd pfd) (take (nat (recv_ret r)) (recv_buffer r)) \<in> set t0"
    using on_pollin_cases [OF p] assms(1,2,3) by auto
  then show ?thesis unfolding t by simp
qed

lemma scan_dispatches:
  "scan i io s = (s', t) \<Longrightarrow> i \<le> j \<Longrightarrow> j < length (fds s) \<Longrightarrow>
   revents (fds s ! j) AND POLLIN \<noteq> 0 \<Longrightarrow> fd (fds s ! j) \<noteq> server_fd s \<Longrightarrow>
   0 < recv_ret (io j) \<Longrightarrow>
   Cb_data (fd (fds s ! j)) (take (nat (recv_ret (io j))) (recv_buffer (io j))) \<in> set t"
proof (induction i io s arbitrary: s' t rule: scan.induct)
  case (1 i io s)
  from "1.prems" have lt: "i < length (fds s)" by simp
  obtain s1 t1 where e: "scan_entry (io i) (fds s ! i) s = (s1, t1)" by fastforce
  obtain s2 t2 where r: "scan (Suc i) io s1 = (s2, t2)" by fastforce
  from "1.prems"(1) lt e r have t: "t = t1 @ t2" by (simp add: scan_step)
  have f: "fds s1 = fds s" "server_fd s1 = server_fd s" using scan_entry_frame [OF e] by simp_all
  show ?case
  proof (cases "i = j")
    case True
    then show ?thesis using scan_entry_data [OF _ _ _ e] "1.prems" t by simp
  next
    case False
    then have "Suc i \<le> j" using "1.prems"(2) by simp
    then show ?thesis using "1.IH" [OF lt e [symmetric] r] "1.prems" f t by simp
  qed
qed

lemma length_poll: "length (poll rs ps) = length ps"
  using arg_cong [OF map_fd_poll [of rs ps], of length] by simp

lemma poll_nth:
  "j < length rs \<Longrightarrow> j < length ps \<Longrightarrow> poll rs ps ! j = (ps ! j)\<lparr>revents := rs ! j\<rparr>"
proof (induction rs ps arbitrary: j rule: poll.induct)
  case (1 r rs p ps)
  then show ?case by (cases j) simp_all
qed simp_all

lemma dispatch_reads:
  assumes "dispatch e s = (s1, t1)" and "j < length (fds s)" and "j < length (poll_revents e)"
    and "poll_revents e ! j AND POLLIN \<noteq> 0" and "fd (fds s ! j) \<noteq> server_fd s"
    and "0 < recv_ret (sys e j)"
  shows "Cb_data (fd (fds s ! j)) (take (nat (recv_ret (sys e j))) (recv_buffer (sys e j)))
           \<in> set t1"
proof -
  let ?s0 = "s\<lparr>fds := poll (poll_revents e) (fds s), remove_clients := [], new_clients := []\<rparr>"
  have sc: "scan 0 (sys e) ?s0 = (s1, t1)" using assms(1) by (simp add: dispatch_def)
  have n: "fds ?s0 ! j = (fds s ! j)\<lparr>revents := poll_revents e ! j\<rparr>"
    using poll_nth [OF assms(3,2)] by simp
  have l: "j < length (fds ?s0)" using assms(2) by (simp add: length_poll)
  show ?thesis
    using scan_dispatches [OF sc _ l, of ] n assms(4,5,6) by simp
qed

subsection \<open>What a pass stages\<close>

lemma on_pollin_sets:
  assumes "on_pollin r pfd s = (s', t)"
  shows "set (new_clients s') = set (new_clients s) \<union>
           {a. a = accept_res r \<and> revents pfd AND POLLIN \<noteq> 0 \<and> fd pfd = server_fd s \<and>
               0 \<le> accept_res r}"
    and "set (remove_clients s') = set (remove_clients s) \<union>
           {d. d = fd pfd \<and> revents pfd AND POLLIN \<noteq> 0 \<and> fd pfd \<noteq> server_fd s \<and>
               recv_ret r \<le> 0}"
  using on_pollin_cases [OF assms] by auto

lemma scan_entry_sets:
  assumes "scan_entry r pfd s = (s', t)"
  shows "set (new_clients s') = set (new_clients s) \<union>
           {a. a = accept_res r \<and> revents pfd AND POLLIN \<noteq> 0 \<and> fd pfd = server_fd s \<and>
               0 \<le> accept_res r}"
    and "set (remove_clients s') = set (remove_clients s) \<union>
           {d. d = fd pfd \<and> revents pfd AND POLLIN \<noteq> 0 \<and> fd pfd \<noteq> server_fd s \<and>
               recv_ret r \<le> 0}"
proof -
  obtain t0 where p: "on_pollin r pfd s = (s', t0)" using scan_entry_eq [OF assms] by blast
  show "set (new_clients s') = set (new_clients s) \<union>
           {a. a = accept_res r \<and> revents pfd AND POLLIN \<noteq> 0 \<and> fd pfd = server_fd s \<and>
               0 \<le> accept_res r}"
    by (rule on_pollin_sets(1) [OF p])
  show "set (remove_clients s') = set (remove_clients s) \<union>
           {d. d = fd pfd \<and> revents pfd AND POLLIN \<noteq> 0 \<and> fd pfd \<noteq> server_fd s \<and>
               recv_ret r \<le> 0}"
    by (rule on_pollin_sets(2) [OF p])
qed

lemma scan_sets:
  "scan i io s = (s', t) \<Longrightarrow>
     set (new_clients s') = set (new_clients s) \<union>
       {accept_res (io j) | j. i \<le> j \<and> j < length (fds s) \<and>
          revents (fds s ! j) AND POLLIN \<noteq> 0 \<and> fd (fds s ! j) = server_fd s \<and>
          0 \<le> accept_res (io j)}
   \<and> set (remove_clients s') = set (remove_clients s) \<union>
       {fd (fds s ! j) | j. i \<le> j \<and> j < length (fds s) \<and>
          revents (fds s ! j) AND POLLIN \<noteq> 0 \<and> fd (fds s ! j) \<noteq> server_fd s \<and>
          recv_ret (io j) \<le> 0}"
proof (induction i io s arbitrary: s' t rule: scan.induct)
  case (1 i io s)
  show ?case
  proof (cases "i < length (fds s)")
    case False
    with "1.prems" show ?thesis by (auto simp: scan_done)
  next
    case True
    obtain s1 t1 where e: "scan_entry (io i) (fds s ! i) s = (s1, t1)" by fastforce
    obtain s2 t2 where r: "scan (Suc i) io s1 = (s2, t2)" by fastforce
    from "1.prems" True e r have s': "s' = s2" by (simp add: scan_step)
    have f: "fds s1 = fds s" "server_fd s1 = server_fd s" using scan_entry_frame [OF e] by simp_all
    have sp: "i \<le> j \<longleftrightarrow> j = i \<or> Suc i \<le> j" for j by auto
    note ih = "1.IH" [OF True e [symmetric] r, unfolded f]
    note en = scan_entry_sets [OF e]
    have n: "set (new_clients s2) = set (new_clients s) \<union>
       {accept_res (io j) | j. i \<le> j \<and> j < length (fds s) \<and>
          revents (fds s ! j) AND POLLIN \<noteq> 0 \<and> fd (fds s ! j) = server_fd s \<and>
          0 \<le> accept_res (io j)}"
      using ih en(1) True by (auto simp: sp)
    have m: "set (remove_clients s2) = set (remove_clients s) \<union>
       {fd (fds s ! j) | j. i \<le> j \<and> j < length (fds s) \<and>
          revents (fds s ! j) AND POLLIN \<noteq> 0 \<and> fd (fds s ! j) \<noteq> server_fd s \<and>
          recv_ret (io j) \<le> 0}"
      using ih en(2) True by (auto simp: sp)
    show ?thesis unfolding s' using n m by simp
  qed
qed

lemma dispatch_sets:
  assumes "dispatch e s = (s1, t1)"
  shows "set (new_clients s1) =
       {accept_res (sys e j) | j. j < length (fds s1) \<and>
          revents (fds s1 ! j) AND POLLIN \<noteq> 0 \<and> fd (fds s1 ! j) = server_fd s \<and>
          0 \<le> accept_res (sys e j)}"
    and "set (remove_clients s1) =
       {fd (fds s1 ! j) | j. j < length (fds s1) \<and>
          revents (fds s1 ! j) AND POLLIN \<noteq> 0 \<and> fd (fds s1 ! j) \<noteq> server_fd s \<and>
          recv_ret (sys e j) \<le> 0}"
proof -
  let ?s0 = "s\<lparr>fds := poll (poll_revents e) (fds s), remove_clients := [], new_clients := []\<rparr>"
  have sc: "scan 0 (sys e) ?s0 = (s1, t1)" using assms by (simp add: dispatch_def)
  have f: "fds ?s0 = fds s1" using scan_frame [OF sc] by simp
  note ss = scan_sets [OF sc, unfolded f]
  show "set (new_clients s1) =
       {accept_res (sys e j) | j. j < length (fds s1) \<and>
          revents (fds s1 ! j) AND POLLIN \<noteq> 0 \<and> fd (fds s1 ! j) = server_fd s \<and>
          0 \<le> accept_res (sys e j)}"
    using ss by simp
  show "set (remove_clients s1) =
       {fd (fds s1 ! j) | j. j < length (fds s1) \<and>
          revents (fds s1 ! j) AND POLLIN \<noteq> 0 \<and> fd (fds s1 ! j) \<noteq> server_fd s \<and>
          recv_ret (sys e j) \<le> 0}"
    using ss by simp
qed

lemma fd_poll_nth: "j < length ps \<Longrightarrow> fd (poll rs ps ! j) = fd (ps ! j)"
  using arg_cong [OF map_fd_poll [of rs ps], of "\<lambda>xs. xs ! j"] by (simp add: length_poll)

subsection \<open>Deferred activation and disconnects\<close>

text \<open>
  Claim C1. Deferred activation. Take a pass in which the entry of the listening
  descriptor is visited with the readable flag set and \<^verbatim>\<open>accept\<close> returns a descriptor
  \<open>a\<close> (not negative; the operating system hands out a descriptor that is not open, so
  \<open>a\<close> is not in the registry). Then \<open>a\<close> is in the addition set when the scan ends, and
  the addition set holds exactly the descriptors accepted in this pass. The connection is
  only staged during the scan: the registry the scan runs over is the one \<^verbatim>\<open>poll\<close> filled
  in, unchanged, and does not contain \<open>a\<close>. The connect callback for \<open>a\<close> is dispatched in
  this pass, but no data callback, no disconnect callback and no \<^verbatim>\<open>close\<close> for \<open>a\<close>
  occurs in the pass, commit included. Commit appends an entry for \<open>a\<close> with read interest
  behind the surviving entries, and from the next pass on that entry is scanned: when
  \<^verbatim>\<open>poll\<close> reports it readable and \<^verbatim>\<open>recv\<close> returns data, the data callback for \<open>a\<close> is
  dispatched.
\<close>

theorem deferred_activation:
  assumes "dispatch e s = (s1, t1)" and "commit s1 = (s2, t2)"
    and "j < length (fds s)" and "fd (fds s ! j) = server_fd s"
    and "revents (poll (poll_revents e) (fds s) ! j) AND POLLIN \<noteq> 0"
    and "accept_res (sys e j) = a" and "0 \<le> a"
    and "a \<notin> fd ` set (fds s)"
  shows "iteration e s = (s2, t1 @ t2)
       \<and> fds s1 = poll (poll_revents e) (fds s)
       \<and> a \<in> set (new_clients s1)
       \<and> set (new_clients s1) =
           {accept_res (sys e k) | k. k < length (fds s1) \<and>
              revents (fds s1 ! k) AND POLLIN \<noteq> 0 \<and> fd (fds s1 ! k) = server_fd s \<and>
              0 \<le> accept_res (sys e k)}
       \<and> a \<notin> fd ` set (fds s1)
       \<and> Cb_connect a \<in> set t1
       \<and> (\<forall>x. Cb_data a x \<notin> set (t1 @ t2))
       \<and> Cb_disconnect a \<notin> set (t1 @ t2)
       \<and> Sys_close a \<notin> set (t1 @ t2)
       \<and> fds s2 = filter (\<lambda>p. fd p \<notin> set (remove_clients s1)) (fds s1)
                    @ map (\<lambda>a. \<lparr>fd = a, events = POLLIN, revents = 0\<rparr>) (new_clients s1)
       \<and> (\<exists>n < length (fds s2).
             fds s2 ! n = \<lparr>fd = a, events = POLLIN, revents = 0\<rparr> \<and>
             (\<forall>e' s3 t3.
                dispatch e' s2 = (s3, t3) \<and> n < length (poll_revents e') \<and>
                poll_revents e' ! n AND POLLIN \<noteq> 0 \<and> 0 < recv_ret (sys e' n) \<and>
                a \<noteq> server_fd s
                \<longrightarrow> Cb_data a (take (nat (recv_ret (sys e' n))) (recv_buffer (sys e' n)))
                      \<in> set t3))"
proof -
  note d = dispatch_facts [OF assms(1)]
  note ds = dispatch_sets [OF assms(1)]
  have it: "iteration e s = (s2, t1 @ t2)" using assms(1,2) by (simp add: iteration_def)
  have im: "fd ` set (fds s1) = fd ` set (fds s)"
    using arg_cong [OF map_fd_poll [of "poll_revents e" "fds s"], of set] d(1) by simp
  have fresh: "a \<notin> fd ` set (fds s1)" using im assms(8) by simp
  have jl: "j < length (fds s1)" using assms(3) d(1) by (simp add: length_poll)
  have jf: "fd (fds s1 ! j) = server_fd s"
    using fd_poll_nth [OF assms(3), of "poll_revents e"] assms(4) d(1) by simp
  have jr: "revents (fds s1 ! j) AND POLLIN \<noteq> 0" using assms(5) d(1) by simp
  have staged: "a \<in> set (new_clients s1)"
    unfolding ds(1) using jl jf jr assms(6,7) by blast
  have t2: "t2 = snd (close_clients_loop (remove_clients s1) (fds s1))"
    using commit_trace [of s1] assms(2) by simp
  have nd1: "\<forall>x. Cb_data a x \<notin> set t1" using d(6) assms(8) by blast
  have nd2: "\<forall>x. Cb_data a x \<notin> set t2"
    using close_clients_loop_trace [of a _ "remove_clients s1" "fds s1"] t2 by simp
  have nx2: "Cb_disconnect a \<notin> set t2"
    using close_clients_loop_trace [of a _ "remove_clients s1" "fds s1"] t2 fresh by blast
  have nc2: "Sys_close a \<notin> set t2"
    using close_clients_loop_close [of a "remove_clients s1" "fds s1"] t2 fresh by blast
  have f2: "fds s2 = filter (\<lambda>p. fd p \<notin> set (remove_clients s1)) (fds s1)
                    @ map (\<lambda>a. \<lparr>fd = a, events = POLLIN, revents = 0\<rparr>) (new_clients s1)"
    and sf: "server_fd s2 = server_fd s1"
    using commit_result [of s1] assms(2) by simp_all
  have "\<lparr>fd = a, events = POLLIN, revents = 0\<rparr> \<in> set (fds s2)"
    unfolding f2 using staged by simp
  then obtain n where n: "n < length (fds s2)"
    and nn: "fds s2 ! n = \<lparr>fd = a, events = POLLIN, revents = 0\<rparr>"
    unfolding in_set_conv_nth by blast
  have next_pass: "Cb_data a (take (nat (recv_ret (sys e' n))) (recv_buffer (sys e' n))) \<in> set t3"
    if "dispatch e' s2 = (s3, t3)" "n < length (poll_revents e')"
      "poll_revents e' ! n AND POLLIN \<noteq> 0" "0 < recv_ret (sys e' n)" "a \<noteq> server_fd s"
    for e' s3 t3
    using dispatch_reads [OF that(1) n that(2,3) _ that(4)] nn sf d(2) that(5) by simp
  show ?thesis
    using it d(1) staged ds(1) fresh d(8) [OF staged] nd1 nd2 d(4) nx2 d(5) nc2 f2 n nn next_pass
    by auto
qed

text \<open>The definitions a pass unfolds to when it is evaluated on given values.\<close>

lemmas eval_defs = dispatch_def scan_step scan_done scan_entry_def on_pollin_def on_pollnval_def
  on_pollerr_def on_pollhup_def on_pollout_def accept_new_client_def
  handle_existing_client_read_def handle_existing_client_write_def set_insert_def
  POLLIN_def POLLOUT_def POLLERR_def POLLHUP_def POLLNVAL_def
  commit_def close_clients_def add_new_clients_def push_back_def iteration_def

theorem deferred_activation_witness:
  "let s = \<lparr>server_fd = 3, port = 9000, pHandler = Some BroadCastChatHandler_ref,
            fds = [\<lparr>fd = 3, events = POLLIN, revents = 0\<rparr>,
                   \<lparr>fd = 5, events = POLLIN, revents = 0\<rparr>],
            new_clients = [], remove_clients = []\<rparr>;
       e = \<lparr>poll_ret = 2, poll_revents = [POLLIN, POLLIN],
            sys = (\<lambda>i. \<lparr>getsockopt_ret = 0, so_error = 0, accept_res = 6,
                         recv_ret = 3, recv_buffer = ''bob''\<rparr>)\<rparr>
   in fd (fds s ! 0) = server_fd s
      \<and> revents (poll (poll_revents e) (fds s) ! 0) AND POLLIN \<noteq> 0
      \<and> accept_res (sys e 0) = 6 \<and> 6 \<notin> fd ` set (fds s)
      \<and> new_clients (fst (dispatch e s)) = [6]
      \<and> snd (iteration e s) = [Cb_connect 6, Cb_data 5 ''bob'']
      \<and> (\<forall>x. Cb_data 6 x \<notin> set (snd (iteration e s)))
      \<and> Cb_disconnect 6 \<notin> set (snd (iteration e s))
      \<and> map fd (fds (fst (dispatch e s))) = [3, 5]
      \<and> map fd (fds (fst (iteration e s))) = [3, 5, 6]"
proof -
  let ?s = "\<lparr>server_fd = 3, port = 9000, pHandler = Some BroadCastChatHandler_ref,
            fds = [\<lparr>fd = 3, events = POLLIN, revents = 0\<rparr>,
                   \<lparr>fd = 5, events = POLLIN, revents = 0\<rparr>],
            new_clients = [], remove_clients = []\<rparr>"
  let ?e = "\<lparr>poll_ret = 2, poll_revents = [POLLIN, POLLIN],
            sys = (\<lambda>i. \<lparr>getsockopt_ret = 0, so_error = 0, accept_res = 6,
                         recv_ret = 3, recv_buffer = ''bob''\<rparr>)\<rparr>"
  let ?s1 = "\<lparr>server_fd = 3, port = 9000, pHandler = Some BroadCastChatHandler_ref,
            fds = [\<lparr>fd = 3, events = POLLIN, revents = POLLIN\<rparr>,
                   \<lparr>fd = 5, events = POLLIN, revents = POLLIN\<rparr>],
            new_clients = [6], remove_clients = []\<rparr>"
  let ?s2 = "\<lparr>server_fd = 3, port = 9000, pHandler = Some BroadCastChatHandler_ref,
            fds = [\<lparr>fd = 3, events = POLLIN, revents = POLLIN\<rparr>,
                   \<lparr>fd = 5, events = POLLIN, revents = POLLIN\<rparr>,
                   \<lparr>fd = 6, events = POLLIN, revents = 0\<rparr>],
            new_clients = [6], remove_clients = []\<rparr>"
  have h1: "dispatch ?e ?s = (?s1, [Cb_connect 6, Cb_data 5 ''bob''])"
    by (simp add: eval_defs)
  have h2: "commit ?s1 = (?s2, [])" by (simp add: eval_defs)
  have h3: "0 < length (fds ?s)" by simp
  have h4: "fd (fds ?s ! 0) = server_fd ?s" by simp
  have h5: "revents (poll (poll_revents ?e) (fds ?s) ! 0) AND POLLIN \<noteq> 0"
    by (simp add: POLLIN_def)
  have h6: "accept_res (sys ?e 0) = 6" by simp
  have h7: "(0::int) \<le> 6" by simp
  have h8: "6 \<notin> fd ` set (fds ?s)" by simp
  from deferred_activation [OF h1 h2 h3 h4 h5 h6 h7 h8] h1 h4 h5
  show ?thesis by (simp add: Let_def)
qed



text \<open>
  Claim C2 says that a descriptor whose observed flags include the hangup condition is
  staged for removal in that pass, whatever a read in the same pass returns, and leaves
  the registry at the commit. The code only reports the hangup. Evaluated on a registry
  with the listening descriptor 3 and the client 5: when \<^verbatim>\<open>poll\<close> reports the hangup
  flag alone for 5, the pass ends with an empty removal set, 5 is still in the registry, it
  was not closed and no disconnect callback was dispatched; when \<^verbatim>\<open>poll\<close> reports hangup
  and readable and \<^verbatim>\<open>recv\<close> returns two bytes, the data callback is dispatched and 5
  stays in the registry as well.
\<close>

theorem hangup_not_staged:
  "iteration
     \<lparr>poll_ret = 1, poll_revents = [0, POLLHUP],
      sys = (\<lambda>i. \<lparr>getsockopt_ret = 0, so_error = 0, accept_res = - 1,
                   recv_ret = 0, recv_buffer = []\<rparr>)\<rparr>
     \<lparr>server_fd = 3, port = 9000, pHandler = Some BroadCastChatHandler_ref,
      fds = [\<lparr>fd = 3, events = POLLIN, revents = 0\<rparr>,
             \<lparr>fd = 5, events = POLLIN, revents = 0\<rparr>],
      new_clients = [], remove_clients = []\<rparr>
   = (\<lparr>server_fd = 3, port = 9000, pHandler = Some BroadCastChatHandler_ref,
      fds = [\<lparr>fd = 3, events = POLLIN, revents = 0\<rparr>,
             \<lparr>fd = 5, events = POLLIN, revents = POLLHUP\<rparr>],
      new_clients = [], remove_clients = []\<rparr>,
      [Peer_hang_up])
   \<and>
   iteration
     \<lparr>poll_ret = 1, poll_revents = [0, POLLHUP OR POLLIN],
      sys = (\<lambda>i. \<lparr>getsockopt_ret = 0, so_error = 0, accept_res = - 1,
                   recv_ret = 2, recv_buffer = ''hi''\<rparr>)\<rparr>
     \<lparr>server_fd = 3, port = 9000, pHandler = Some BroadCastChatHandler_ref,
      fds = [\<lparr>fd = 3, events = POLLIN, revents = 0\<rparr>,
             \<lparr>fd = 5, events = POLLIN, revents = 0\<rparr>],
      new_clients = [], remove_clients = []\<rparr>
   = (\<lparr>server_fd = 3, port = 9000, pHandler = Some BroadCastChatHandler_ref,
      fds = [\<lparr>fd = 3, events = POLLIN, revents = 0\<rparr>,
             \<lparr>fd = 5, events = POLLIN, revents = POLLHUP OR POLLIN\<rparr>],
      new_clients = [], remove_clients = []\<rparr>,
      [Peer_hang_up, Cb_data 5 ''hi''])"
  by (simp add: eval_defs)

subsection \<open>Construction, the loop and the exit status\<close>

lemma iteration_frame:
  assumes "iteration e s = (s', t)"
  shows "server_fd s' = server_fd s \<and> pHandler s' = pHandler s"
proof -
  obtain s1 t1 where h1: "dispatch e s = (s1, t1)" by fastforce
  obtain s2 t2 where h2: "commit s1 = (s2, t2)" by fastforce
  from assms h1 h2 have s': "s' = s2" by (simp add: iteration_def)
  have "pHandler s2 = pHandler s1"
    using h2 by (auto simp: commit_def close_clients_def add_new_clients_def split: prod.splits)
  then show ?thesis
    using dispatch_facts(2,3) [OF h1] commit_result [of s1] h2 s' by simp
qed

lemma run_frame:
  "run s script = Some (s', t) \<Longrightarrow> server_fd s' = server_fd s \<and> pHandler s' = pHandler s"
proof (induction script arbitrary: s t)
  case Nil
  then show ?case by simp
next
  case (Cons e es)
  show ?case
  proof (cases "poll_ret e < 0")
    case True
    with Cons.prems show ?thesis by simp
  next
    case False
    obtain s1 t1 where i: "iteration e s = (s1, t1)" by fastforce
    from Cons.prems False i obtain t2 where r: "run s1 es = Some (s', t2)"
      by (auto split: option.splits)
    show ?thesis using Cons.IH [OF r] iteration_frame [OF i] by simp
  qed
qed

lemma run_until_error:
  "\<forall>e\<in>set oks. 0 \<le> poll_ret e \<Longrightarrow> poll_ret bad < 0 \<Longrightarrow>
     \<exists>s' t. run s (oks @ bad # rest) = Some (s', t @ [Nothing_to_poll, Sys_close (server_fd s)])"
proof (induction oks arbitrary: s)
  case Nil
  then show ?case by simp
next
  case (Cons e es)
  obtain s1 t1 where i: "iteration e s = (s1, t1)" by fastforce
  have sf: "server_fd s1 = server_fd s" using iteration_frame [OF i] by simp
  from Cons.IH [of s1] Cons.prems obtain s' t
    where r: "run s1 (es @ bad # rest) = Some (s', t @ [Nothing_to_poll, Sys_close (server_fd s1)])"
    by auto
  have "run s ((e # es) @ bad # rest)
          = Some (s', (t1 @ t) @ [Nothing_to_poll, Sys_close (server_fd s)])"
    using Cons.prems(1) i r sf by simp
  then show ?case by blast
qed

lemma ctor_ok:
  "0 \<le> socket_res env \<Longrightarrow> 0 \<le> bind_res env \<Longrightarrow> 0 \<le> listen_res env \<Longrightarrow>
     TcpServer_ctor prt (Some h) env =
       (Inr \<lparr>server_fd = socket_res env, port = prt, pHandler = Some h,
             fds = [\<lparr>fd = socket_res env, events = POLLIN, revents = 0\<rparr>],
             new_clients = [], remove_clients = []\<rparr>,
        [Sys_socket, Sys_bind (socket_res env) prt, Sys_listen (socket_res env),
         Ready_for_listen prt])"
  by (simp add: TcpServer_ctor_def setup_socket_def)

lemma ctor_fails:
  "socket_res env < 0 \<or> bind_res env < 0 \<or> listen_res env < 0 \<Longrightarrow>
     \<exists>m t. TcpServer_ctor prt (Some h) env = (Inl (Runtime_error m), t) \<and>
           set t \<subseteq> {Sys_socket, Sys_bind (socket_res env) prt, Sys_listen (socket_res env)}"
  by (cases "socket_res env < 0"; cases "bind_res env < 0")
     (auto simp: TcpServer_ctor_def setup_socket_def Let_def)

text \<open>
  Claim C3 says that the process exits with a non-zero status when \<^verbatim>\<open>poll\<close> itself
  fails. In the code \<^verbatim>\<open>run\<close> leaves its loop and returns normally, and \<^verbatim>\<open>main\<close> goes on
  to \<^verbatim>\<open>return 0\<close>: with a successful setup and a first \<^verbatim>\<open>poll\<close> returning -1 the exit
  status is 0.
\<close>

theorem poll_failure_exit_status_counterexample:
  "main \<lparr>socket_res = 3, bind_res = 0, listen_res = 0\<rparr>
        [\<lparr>poll_ret = - 1, poll_revents = [], sys = (\<lambda>i. \<lparr>getsockopt_ret = 0, so_error = 0,
            accept_res = - 1, recv_ret = 0, recv_buffer = []\<rparr>)\<rparr>]
     = Some (0, [Sys_socket, Sys_bind 3 9000, Sys_listen 3, Ready_for_listen 9000,
                 Nothing_to_poll, Sys_close 3, Sys_close 3, Sys_close 3])"
  by (simp add: main_def TcpServer_ctor_def setup_socket_def TcpServer_dtor_def)

text \<open>
  Claim C3, as the code has it. If socket creation, bind or listen fails, the constructor
  throws, \<^verbatim>\<open>main\<close> catches and exits with \<^verbatim>\<open>EXIT_FAILURE\<close>, which is not zero, whatever
  \<^verbatim>\<open>poll\<close> would have answered: nothing but the setup calls happened. If setup succeeds and
  some round of \<^verbatim>\<open>poll\<close> returns an error after any number of successful rounds, \<^verbatim>\<open>run\<close>
  returns (the loop ends with the diagnostic and the close of the listening descriptor),
  the server is destroyed, and the exit status is 0.
\<close>

theorem exit_status:
  "(socket_res env < 0 \<or> bind_res env < 0 \<or> listen_res env < 0 \<longrightarrow>
      (\<exists>m t. main env script = Some (EXIT_FAILURE, t @ [Server_error m]) \<and>
             set t \<subseteq> {Sys_socket, Sys_bind (socket_res env) 9000, Sys_listen (socket_res env)})
      \<and> EXIT_FAILURE \<noteq> 0)
   \<and> (0 \<le> socket_res env \<and> 0 \<le> bind_res env \<and> 0 \<le> listen_res env \<and>
      (\<forall>e\<in>set oks. 0 \<le> poll_ret e) \<and> poll_ret bad < 0 \<longrightarrow>
      (\<exists>s' t. main env (oks @ bad # rest)
                = Some (0, t @ [Nothing_to_poll, Sys_close (socket_res env)] @ TcpServer_dtor s')))"
proof (intro conjI impI)
  assume f: "socket_res env < 0 \<or> bind_res env < 0 \<or> listen_res env < 0"
  from ctor_fails [OF f, of 9000 BroadCastChatHandler_ref] obtain m t
    where c: "TcpServer_ctor 9000 (Some BroadCastChatHandler_ref) env = (Inl (Runtime_error m), t)"
      and t: "set t \<subseteq> {Sys_socket, Sys_bind (socket_res env) 9000, Sys_listen (socket_res env)}"
    by blast
  have "main env script = Some (EXIT_FAILURE, t @ [Server_error m])"
    by (simp add: main_def c what_def)
  with t show "\<exists>m t. main env script = Some (EXIT_FAILURE, t @ [Server_error m]) \<and>
             set t \<subseteq> {Sys_socket, Sys_bind (socket_res env) 9000, Sys_listen (socket_res env)}"
    by blast
next
  show "EXIT_FAILURE \<noteq> 0" by (simp add: EXIT_FAILURE_def)
next
  assume a: "0 \<le> socket_res env \<and> 0 \<le> bind_res env \<and> 0 \<le> listen_res env \<and>
      (\<forall>e\<in>set oks. 0 \<le> poll_ret e) \<and> poll_ret bad < 0"
  let ?s = "\<lparr>server_fd = socket_res env, port = 9000, pHandler = Some BroadCastChatHandler_ref,
             fds = [\<lparr>fd = socket_res env, events = POLLIN, revents = 0\<rparr>],
             new_clients = [], remove_clients = []\<rparr>"
  from a have c: "TcpServer_ctor 9000 (Some BroadCastChatHandler_ref) env =
       (Inr ?s, [Sys_socket, Sys_bind (socket_res env) 9000, Sys_listen (socket_res env),
         Ready_for_listen 9000])"
    using ctor_ok [of env 9000 BroadCastChatHandler_ref] by simp
  from a run_until_error [of oks bad ?s rest] obtain s' t
    where r: "run ?s (oks @ bad # rest) = Some (s', t @ [Nothing_to_poll, Sys_close (server_fd ?s)])"
    by blast
  have "main env (oks @ bad # rest)
      = Some (0, ([Sys_socket, Sys_bind (socket_res env) 9000, Sys_listen (socket_res env),
         Ready_for_listen 9000] @ t) @ [Nothing_to_poll, Sys_close (socket_res env)] @ TcpServer_dtor s')"
    using r by (simp add: main_def c)
  then show "\<exists>s' t. main env (oks @ bad # rest)
                = Some (0, t @ [Nothing_to_poll, Sys_close (socket_res env)] @ TcpServer_dtor s')"
    by blast
qed


theorem exit_status_witness:
  "let failing = \<lparr>socket_res = 3, bind_res = - 1, listen_res = 0\<rparr>;
       working = \<lparr>socket_res = 3, bind_res = 0, listen_res = 0\<rparr>;
       io = (\<lambda>i. \<lparr>getsockopt_ret = 0, so_error = 0, accept_res = 4,
                   recv_ret = 0, recv_buffer = []\<rparr>);
       ok = \<lparr>poll_ret = 1, poll_revents = [POLLIN], sys = io\<rparr>;
       bad = \<lparr>poll_ret = - 1, poll_revents = [], sys = io\<rparr>
   in (socket_res failing < 0 \<or> bind_res failing < 0 \<or> listen_res failing < 0)
      \<and> main failing [ok, bad]
          = Some (1, [Sys_socket, Sys_bind 3 9000, Server_error ''Socket binding failed''])
      \<and> 0 \<le> socket_res working \<and> 0 \<le> bind_res working \<and> 0 \<le> listen_res working
      \<and> 0 \<le> poll_ret ok \<and> poll_ret bad < 0
      \<and> main working ([ok] @ bad # [])
          = Some (0, [Sys_socket, Sys_bind 3 9000, Sys_listen 3, Ready_for_listen 9000,
                      Cb_connect 4, Nothing_to_poll, Sys_close 3,
                      Sys_close 3, Sys_close 3, Sys_close 4])"
proof -
  let ?failing = "\<lparr>socket_res = 3, bind_res = - 1, listen_res = 0\<rparr>"
  let ?working = "\<lparr>socket_res = 3, bind_res = 0, listen_res = 0\<rparr>"
  let ?io = "\<lambda>i::nat. \<lparr>getsockopt_ret = 0, so_error = 0, accept_res = 4,
                   recv_ret = 0, recv_buffer = []\<rparr>"
  let ?ok = "\<lparr>poll_ret = 1, poll_revents = [POLLIN], sys = ?io\<rparr>"
  let ?bad = "\<lparr>poll_ret = - 1, poll_revents = [], sys = ?io\<rparr>"
  have i: "iteration ?ok
      \<lparr>server_fd = 3, port = 9000, pHandler = Some BroadCastChatHandler_ref,
        fds = [\<lparr>fd = 3, events = POLLIN, revents = 0\<rparr>], new_clients = [], remove_clients = []\<rparr>
     = (\<lparr>server_fd = 3, port = 9000, pHandler = Some BroadCastChatHandler_ref,
        fds = [\<lparr>fd = 3, events = POLLIN, revents = POLLIN\<rparr>,
               \<lparr>fd = 4, events = POLLIN, revents = 0\<rparr>],
        new_clients = [4], remove_clients = []\<rparr>, [Cb_connect 4])"
    by (simp add: eval_defs)
  have m1: "main ?failing [?ok, ?bad]
          = Some (1, [Sys_socket, Sys_bind 3 9000, Server_error ''Socket binding failed''])"
    by (simp add: main_def TcpServer_ctor_def setup_socket_def what_def EXIT_FAILURE_def)
  have m2: "main ?working ([?ok] @ ?bad # [])
          = Some (0, [Sys_socket, Sys_bind 3 9000, Sys_listen 3, Ready_for_listen 9000,
                      Cb_connect 4, Nothing_to_poll, Sys_close 3,
                      Sys_close 3, Sys_close 3, Sys_close 4])"
    by (simp add: main_def TcpServer_ctor_def setup_socket_def TcpServer_dtor_def i)
  from exit_status [where env = ?failing and script = "[?ok, ?bad]"]
    exit_status [where env = ?working and oks = "[?ok]" and bad = ?bad and rest = "[]"]
    m1 m2
  show ?thesis by (simp add: Let_def)
qed

text \<open>
  Claim C9. For every port and every answer of the operating system, constructing the
  server with a null handler pointer throws before any system call is made, so no socket
  is created. A server that was constructed holds the non-null pointer it was given, and
  every pass of the loop and \<^verbatim>\<open>run\<close> as a whole leave that pointer as it is.
\<close>

theorem null_handler_rejected:
  "TcpServer_ctor prt None env = (Inl (Runtime_error ''client handle can not be null''), [])
   \<and> (TcpServer_ctor prt h env = (Inr s, t) \<longrightarrow>
        h \<noteq> None \<and> pHandler s = h
        \<and> (\<forall>e s' t'. iteration e s = (s', t') \<longrightarrow> pHandler s' = h)
        \<and> (\<forall>script s' t'. run s script = Some (s', t') \<longrightarrow> pHandler s' = h))"
proof (intro conjI impI)
  show "TcpServer_ctor prt None env = (Inl (Runtime_error ''client handle can not be null''), [])"
    by (simp add: TcpServer_ctor_def)
next
  assume c: "TcpServer_ctor prt h env = (Inr s, t)"
  then show nn: "h \<noteq> None" by (auto simp: TcpServer_ctor_def split: if_splits)
  from c nn show ph: "pHandler s = h"
    by (auto simp: TcpServer_ctor_def setup_socket_def Let_def split: if_splits)
  show "\<forall>e s' t'. iteration e s = (s', t') \<longrightarrow> pHandler s' = h"
    using iteration_frame ph by blast
  show "\<forall>script s' t'. run s script = Some (s', t') \<longrightarrow> pHandler s' = h"
    using run_frame ph by blast
qed

theorem null_handler_rejected_witness:
  "let env = \<lparr>socket_res = 3, bind_res = 0, listen_res = 0\<rparr>;
       s = \<lparr>server_fd = 3, port = 9000, pHandler = Some EchoHandler_ref,
            fds = [\<lparr>fd = 3, events = POLLIN, revents = 0\<rparr>],
            new_clients = [], remove_clients = []\<rparr>;
       e = \<lparr>poll_ret = 1, poll_revents = [POLLIN],
            sys = (\<lambda>i. \<lparr>getsockopt_ret = 0, so_error = 0, accept_res = 4,
                         recv_ret = 0, recv_buffer = []\<rparr>)\<rparr>
   in TcpServer_ctor 9000 (Some EchoHandler_ref) env
        = (Inr s, [Sys_socket, Sys_bind 3 9000, Sys_listen 3, Ready_for_listen 9000])
      \<and> TcpServer_ctor 9000 None env
        = (Inl (Runtime_error ''client handle can not be null''), [])
      \<and> pHandler s = Some EchoHandler_ref
      \<and> pHandler (fst (iteration e s)) = Some EchoHandler_ref"
proof -
  let ?env = "\<lparr>socket_res = 3, bind_res = 0, listen_res = 0\<rparr>"
  let ?s = "\<lparr>server_fd = 3, port = 9000, pHandler = Some EchoHandler_ref,
            fds = [\<lparr>fd = 3, events = POLLIN, revents = 0\<rparr>],
            new_clients = [], remove_clients = []\<rparr>"
  have c: "TcpServer_ctor 9000 (Some EchoHandler_ref) ?env
        = (Inr ?s, [Sys_socket, Sys_bind 3 9000, Sys_listen 3, Ready_for_listen 9000])"
    by (simp add: TcpServer_ctor_def setup_socket_def)
  note w = null_handler_rejected [of 9000 ?env "Some EchoHandler_ref" ?s
      "[Sys_socket, Sys_bind 3 9000, Sys_listen 3, Ready_for_listen 9000]"]
  from w have a: "TcpServer_ctor 9000 None ?env
        = (Inl (Runtime_error ''client handle can not be null''), [])" by blast
  from w c have b: "\<forall>e s' t'. iteration e ?s = (s', t') \<longrightarrow> pHandler s' = Some EchoHandler_ref"
    by blast
  show ?thesis
    using a c b [rule_format, OF surjective_pairing] by (simp add: Let_def)
qed

section \<open>Properties of the broadcast chat handler\<close>

lemma fan_out:
  "concat (map (\<lambda>x. if x \<noteq> c then [Send x m] else []) xs)
     = map (\<lambda>x. Send x m) (filter (\<lambda>x. x \<noteq> c) xs)"
  by (induction xs) simp_all

lemma broadcast_eq:
  "broadcast h c m = map (\<lambda>x. Send x m) (filter (\<lambda>x. x \<noteq> c) (clients h))"
  by (simp add: broadcast_def fan_out)

lemma recipients_sends: "recipients (map (\<lambda>x. Send x m) xs @ [Cout m']) = xs"
  by (induction xs) simp_all

lemma recipients_sends0: "recipients (map (\<lambda>x. Send x m) xs) = xs"
  by (induction xs) simp_all

lemma erase_both:
  "erase_remove LF (erase_remove CR bytes) = filter (\<lambda>ch. ch \<noteq> CR \<and> ch \<noteq> LF) bytes"
  by (simp add: erase_remove_def conj_commute)

lemma filter_removeAll_same: "filter (\<lambda>x. x \<noteq> c) (removeAll c xs) = filter (\<lambda>x. x \<noteq> c) xs"
  by (induction xs) simp_all

lemma on_client_data_unnamed:
  "nick_names h c = None \<Longrightarrow>
     on_client_data h c bytes =
       (h\<lparr>nick_names := (nick_names h)(c \<mapsto> filter (\<lambda>ch. ch \<noteq> CR \<and> ch \<noteq> LF) bytes)\<rparr>,
        map (\<lambda>x. Send x (filter (\<lambda>ch. ch \<noteq> CR \<and> ch \<noteq> LF) bytes @ '' joined the chat'' @ [LF]))
            (filter (\<lambda>x. x \<noteq> c) (clients h))
        @ [Cout (filter (\<lambda>ch. ch \<noteq> CR \<and> ch \<noteq> LF) bytes @ '' joined the chat'' @ [LF])])"
  by (simp add: on_client_data_def Let_def broadcast_eq erase_both)

lemma on_client_data_named:
  "nick_names h c = Some name \<Longrightarrow>
     on_client_data h c bytes =
       (h,
        map (\<lambda>x. Send x (name @ '': '' @ filter (\<lambda>ch. ch \<noteq> CR \<and> ch \<noteq> LF) bytes @ [LF]))
            (filter (\<lambda>x. x \<noteq> c) (clients h))
        @ [Cout (name @ '': '' @ filter (\<lambda>ch. ch \<noteq> CR \<and> ch \<noteq> LF) bytes @ [LF])])"
  by (simp add: on_client_data_def Let_def broadcast_eq erase_both)

lemma on_client_data_recipients:
  "recipients (snd (on_client_data h c bytes)) = filter (\<lambda>x. x \<noteq> c) (clients h)"
  by (simp add: on_client_data_def Let_def broadcast_eq recipients_sends split: option.splits)

text \<open>
  Claim C7. Every fan-out of a message \<open>m\<close> with sender \<open>c\<close> writes \<open>m\<close>, and nothing
  else, once to each member of the membership set other than \<open>c\<close>, in the order of the
  set, and never writes to \<open>c\<close>. This holds for \<^verbatim>\<open>broadcast\<close> itself and so for the join
  announcement and the chat line of \<^verbatim>\<open>on_client_data\<close> and for the departure announcement
  of \<^verbatim>\<open>on_client_disconnect\<close> (which takes \<open>c\<close> out of the set first).
\<close>

theorem broadcast_excludes_sender:
  "recipients (broadcast h c m) = filter (\<lambda>x. x \<noteq> c) (clients h)
   \<and> set (broadcast h c m) = (\<lambda>x. Send x m) ` (set (clients h) - {c})
   \<and> c \<notin> set (recipients (broadcast h c m))
   \<and> recipients (snd (on_client_data h c bytes)) = filter (\<lambda>x. x \<noteq> c) (clients h)
   \<and> recipients (snd (on_client_disconnect h c)) = filter (\<lambda>x. x \<noteq> c) (clients h)"
proof -
  have a: "recipients (broadcast h c m) = filter (\<lambda>x. x \<noteq> c) (clients h)" for h m
    by (simp add: broadcast_eq recipients_sends0)
  have b: "set (broadcast h c m) = (\<lambda>x. Send x m) ` (set (clients h) - {c})"
    by (auto simp: broadcast_eq)
  have d: "recipients (snd (on_client_data h c bytes)) = filter (\<lambda>x. x \<noteq> c) (clients h)"
    by (simp add: on_client_data_def Let_def broadcast_eq recipients_sends split: option.splits)
  have e: "recipients (snd (on_client_disconnect h c)) = filter (\<lambda>x. x \<noteq> c) (clients h)"
    by (simp add: on_client_disconnect_def Let_def broadcast_eq recipients_sends
          filter_removeAll_same)
  show ?thesis using a [of h m] b d e by simp
qed

text \<open>
  Claim C6 says that the handler strips the line terminators at the end of the received
  bytes. The code erases every carriage return and every line feed, wherever it stands:
  from the bytes \<open>a\<close>, line feed, \<open>b\<close>, line feed of a connection without a name (two lines
  received in one read) the name becomes \<open>ab\<close>, while stripping at the end would leave
  \<open>a\<close>, line feed, \<open>b\<close>.
\<close>

theorem strip_trailing_counterexample:
  "nick_names (fst (on_client_data \<lparr>clients = [5, 6], nick_names = Map.empty\<rparr> 5
                      [CHR ''a'', LF, CHR ''b'', LF])) 5 = Some ''ab''
   \<and> snd (on_client_data \<lparr>clients = [5, 6], nick_names = Map.empty\<rparr> 5
             [CHR ''a'', LF, CHR ''b'', LF])
       = [Send 6 (''ab joined the chat'' @ [LF]), Cout (''ab joined the chat'' @ [LF])]
   \<and> strip_trailing_terminators [CHR ''a'', LF, CHR ''b'', LF] = [CHR ''a'', LF, CHR ''b'']
   \<and> ''ab'' \<noteq> [CHR ''a'', LF, CHR ''b'']"
  by (simp add: on_client_data_def broadcast_def erase_remove_def strip_trailing_terminators_def
        CR_def LF_def Let_def)

lemma strip_agrees:
  assumes "\<forall>ch\<in>set (strip_trailing_terminators bytes). ch \<noteq> CR \<and> ch \<noteq> LF"
  shows "filter (\<lambda>ch. ch \<noteq> CR \<and> ch \<noteq> LF) bytes = strip_trailing_terminators bytes"
proof -
  let ?Q = "\<lambda>c. c = CR \<or> c = LF"
  have "rev (dropWhile ?Q (rev bytes)) @ rev (takeWhile ?Q (rev bytes))
          = rev (takeWhile ?Q (rev bytes) @ dropWhile ?Q (rev bytes))"
    by (simp only: rev_append)
  also have "\<dots> = bytes" by (simp only: takeWhile_dropWhile_id rev_rev_ident)
  finally have sp: "bytes = strip_trailing_terminators bytes @ rev (takeWhile ?Q (rev bytes))"
    by (simp only: strip_trailing_terminators_def)
  have t: "filter (\<lambda>ch. ch \<noteq> CR \<and> ch \<noteq> LF) (rev (takeWhile ?Q (rev bytes))) = []"
    unfolding filter_empty_conv using set_takeWhileD [of _ ?Q "rev bytes"] by auto
  have k: "filter (\<lambda>ch. ch \<noteq> CR \<and> ch \<noteq> LF) (strip_trailing_terminators bytes)
             = strip_trailing_terminators bytes"
    using assms by (simp add: filter_id_conv)
  have "filter (\<lambda>ch. ch \<noteq> CR \<and> ch \<noteq> LF) bytes
      = filter (\<lambda>ch. ch \<noteq> CR \<and> ch \<noteq> LF)
          (strip_trailing_terminators bytes @ rev (takeWhile ?Q (rev bytes)))"
    using sp by simp
  also have "\<dots> = strip_trailing_terminators bytes" using t k by simp
  finally show ?thesis .
qed

text \<open>
  Claim C6, as the code has it. \<^verbatim>\<open>on_client_data\<close> erases every carriage return and
  line feed from the received bytes. If the sender has no display name, the remaining text
  becomes its name and a join announcement (the text followed by
  \<^verbatim>\<open> joined the chat\<close> and a line feed) is written to every other member; otherwise the
  state stays as it is and the text, prefixed with the sender's name and a colon and
  followed by a line feed, is written to every other member. The sender is written
  nothing in either case. Where the only terminators of the bytes are at their end, the
  remaining text is the bytes with the trailing terminators stripped.
\<close>

theorem on_client_data_fan_out:
  "(nick_names h c = None \<longrightarrow>
      on_client_data h c bytes =
        (h\<lparr>nick_names := (nick_names h)(c \<mapsto> filter (\<lambda>ch. ch \<noteq> CR \<and> ch \<noteq> LF) bytes)\<rparr>,
         map (\<lambda>x. Send x (filter (\<lambda>ch. ch \<noteq> CR \<and> ch \<noteq> LF) bytes @ '' joined the chat'' @ [LF]))
             (filter (\<lambda>x. x \<noteq> c) (clients h))
         @ [Cout (filter (\<lambda>ch. ch \<noteq> CR \<and> ch \<noteq> LF) bytes @ '' joined the chat'' @ [LF])]))
   \<and> (nick_names h c = Some name \<longrightarrow>
      on_client_data h c bytes =
        (h,
         map (\<lambda>x. Send x (name @ '': '' @ filter (\<lambda>ch. ch \<noteq> CR \<and> ch \<noteq> LF) bytes @ [LF]))
             (filter (\<lambda>x. x \<noteq> c) (clients h))
         @ [Cout (name @ '': '' @ filter (\<lambda>ch. ch \<noteq> CR \<and> ch \<noteq> LF) bytes @ [LF])]))
   \<and> c \<notin> set (recipients (snd (on_client_data h c bytes)))
   \<and> ((\<forall>ch\<in>set (strip_trailing_terminators bytes). ch \<noteq> CR \<and> ch \<noteq> LF) \<longrightarrow>
        filter (\<lambda>ch. ch \<noteq> CR \<and> ch \<noteq> LF) bytes = strip_trailing_terminators bytes)"
  using strip_agrees [of bytes] on_client_data_recipients [of h c bytes]
    on_client_data_unnamed [of h c bytes] on_client_data_named [of h c name bytes]
  by simp

theorem on_client_data_fan_out_witness:
  "let h0 = \<lparr>clients = [5, 6, 7], nick_names = Map.empty\<rparr>;
       h1 = \<lparr>clients = [5, 6, 7], nick_names = [5 \<mapsto> ''alice'']\<rparr>
   in nick_names h0 5 = None
      \<and> on_client_data h0 5 (''alice'' @ [CR, LF])
          = (h1, [Send 6 (''alice joined the chat'' @ [LF]),
                  Send 7 (''alice joined the chat'' @ [LF]),
                  Cout (''alice joined the chat'' @ [LF])])
      \<and> nick_names h1 5 = Some ''alice''
      \<and> on_client_data h1 5 (''hello'' @ [LF])
          = (h1, [Send 6 (''alice: hello'' @ [LF]), Send 7 (''alice: hello'' @ [LF]),
                  Cout (''alice: hello'' @ [LF])])
      \<and> strip_trailing_terminators (''alice'' @ [CR, LF]) = ''alice''"
proof -
  let ?h0 = "\<lparr>clients = [5, 6, 7], nick_names = Map.empty\<rparr>"
  let ?h1 = "\<lparr>clients = [5, 6, 7], nick_names = [5 \<mapsto> ''alice'']\<rparr>"
  have s: "strip_trailing_terminators (''alice'' @ [CR, LF]) = ''alice''"
    by (simp add: strip_trailing_terminators_def CR_def LF_def)
  have q: "\<forall>ch\<in>set (strip_trailing_terminators (''alice'' @ [CR, LF])). ch \<noteq> CR \<and> ch \<noteq> LF"
    unfolding s by (simp add: CR_def LF_def)
  note w0 = on_client_data_fan_out [where h = ?h0 and c = 5 and bytes = "''alice'' @ [CR, LF]"]
  note w1 = on_client_data_fan_out [where h = ?h1 and c = 5 and bytes = "''hello'' @ [LF]"
      and name = "''alice''"]
  have f0: "filter (\<lambda>ch. ch \<noteq> CR \<and> ch \<noteq> LF) (''alice'' @ [CR, LF]) = ''alice''"
    using w0 q s by simp
  have f1: "filter (\<lambda>ch. ch \<noteq> CR \<and> ch \<noteq> LF) (''hello'' @ [LF]) = ''hello''"
    by (simp add: CR_def LF_def)
  have a: "on_client_data ?h0 5 (''alice'' @ [CR, LF])
          = (?h1, [Send 6 (''alice joined the chat'' @ [LF]),
                  Send 7 (''alice joined the chat'' @ [LF]),
                  Cout (''alice joined the chat'' @ [LF])])"
    using w0 unfolding f0 by simp
  have b: "on_client_data ?h1 5 (''hello'' @ [LF])
          = (?h1, [Send 6 (''alice: hello'' @ [LF]), Send 7 (''alice: hello'' @ [LF]),
                  Cout (''alice: hello'' @ [LF])])"
    using w1 unfolding f1 by simp
  show ?thesis using a b s by (simp add: Let_def)
qed

text \<open>
  Claim C10. When the first message of a connection consists of line terminators only,
  the text that remains is empty, and still the connection gets a name: the empty string
  is stored in the name map, and the join announcement \<^verbatim>\<open> joined the chat\<close> goes to every
  other member. A later message from the connection leaves the state as it is and is
  fanned out with the empty name in front (\<^verbatim>\<open>: \<close>, the text, a line feed); the
  connection itself is written nothing, so it is not asked for a name again.
\<close>

theorem empty_display_name:
  assumes "set bytes \<subseteq> {CR, LF}" and "nick_names h c = None"
    and "on_client_data h c bytes = (h1, out1)" and "on_client_data h1 c bytes2 = (h2, out2)"
  shows "nick_names h1 c = Some [] \<and> clients h1 = clients h
       \<and> out1 = map (\<lambda>x. Send x ('' joined the chat'' @ [LF])) (filter (\<lambda>x. x \<noteq> c) (clients h))
                @ [Cout ('' joined the chat'' @ [LF])]
       \<and> h2 = h1
       \<and> out2 = map (\<lambda>x. Send x ('': '' @ filter (\<lambda>ch. ch \<noteq> CR \<and> ch \<noteq> LF) bytes2 @ [LF]))
                    (filter (\<lambda>x. x \<noteq> c) (clients h))
                @ [Cout ('': '' @ filter (\<lambda>ch. ch \<noteq> CR \<and> ch \<noteq> LF) bytes2 @ [LF])]
       \<and> c \<notin> set (recipients out1) \<and> c \<notin> set (recipients out2)"
proof -
  have e: "filter (\<lambda>ch. ch \<noteq> CR \<and> ch \<noteq> LF) bytes = []"
    unfolding filter_empty_conv using assms(1) by auto
  have h1: "h1 = h\<lparr>nick_names := (nick_names h)(c \<mapsto> [])\<rparr>"
    and o1: "out1 = map (\<lambda>x. Send x ('' joined the chat'' @ [LF])) (filter (\<lambda>x. x \<noteq> c) (clients h))
                @ [Cout ('' joined the chat'' @ [LF])]"
    using on_client_data_unnamed [OF assms(2), of bytes] assms(3) e by simp_all
  have n1: "nick_names h1 c = Some []" and c1: "clients h1 = clients h" using h1 by simp_all
  have h2: "h2 = h1"
    and o2: "out2 = map (\<lambda>x. Send x ('': '' @ filter (\<lambda>ch. ch \<noteq> CR \<and> ch \<noteq> LF) bytes2 @ [LF]))
                    (filter (\<lambda>x. x \<noteq> c) (clients h))
                @ [Cout ('': '' @ filter (\<lambda>ch. ch \<noteq> CR \<and> ch \<noteq> LF) bytes2 @ [LF])]"
    using on_client_data_named [OF n1, of bytes2] assms(4) c1 by simp_all
  have r1: "c \<notin> set (recipients out1)" unfolding o1 recipients_sends by simp
  have r2: "c \<notin> set (recipients out2)" unfolding o2 recipients_sends by simp
  show ?thesis using n1 c1 o1 h2 o2 r1 r2 by blast
qed

theorem empty_display_name_witness:
  "let h = \<lparr>clients = [5, 6], nick_names = Map.empty\<rparr>;
       h1 = \<lparr>clients = [5, 6], nick_names = [5 \<mapsto> []]\<rparr>
   in set [CR, LF] \<subseteq> {CR, LF} \<and> nick_names h 5 = None
      \<and> on_client_data h 5 [CR, LF]
          = (h1, [Send 6 ('' joined the chat'' @ [LF]), Cout ('' joined the chat'' @ [LF])])
      \<and> on_client_data h1 5 (''hi'' @ [LF])
          = (h1, [Send 6 ('': hi'' @ [LF]), Cout ('': hi'' @ [LF])])
      \<and> nick_names h1 5 = Some []"
proof -
  let ?h = "\<lparr>clients = [5, 6], nick_names = Map.empty\<rparr>"
  let ?h1 = "\<lparr>clients = [5, 6], nick_names = [5 \<mapsto> []]\<rparr>"
  have a: "set [CR, LF] \<subseteq> {CR, LF}" by simp
  have b: "nick_names ?h 5 = None" by simp
  have f: "filter (\<lambda>ch. ch \<noteq> CR \<and> ch \<noteq> LF) (''hi'' @ [LF]) = ''hi''"
    by (simp add: CR_def LF_def)
  note w = empty_display_name [OF a b surjective_pairing surjective_pairing,
      where ?bytes2.0 = "''hi'' @ [LF]"]
  have e1: "on_client_data ?h 5 [CR, LF]
          = (?h1, [Send 6 ('' joined the chat'' @ [LF]), Cout ('' joined the chat'' @ [LF])])"
    by (simp add: on_client_data_def Let_def broadcast_def erase_remove_def CR_def LF_def)
  have e2: "on_client_data ?h1 5 (''hi'' @ [LF])
          = (?h1, [Send 6 ('': hi'' @ [LF]), Cout ('': hi'' @ [LF])])"
    using w unfolding e1 f by (simp add: prod_eq_iff)
  show ?thesis using a b e1 e2 by (simp add: Let_def)
qed

end
